theory Spec2Isabelle
  imports Main "HOL-Library.AList"
begin

section \<open>Python values, dictionaries and errors\<close>

text \<open>
  The connector of \<^verbatim>\<open>unstructured/ingest/v2/processes/connectors/astradb.py\<close> moves
  values that \<^verbatim>\<open>json.load\<close> produced. A parsed JSON document is a tree: Python's
  \<^verbatim>\<open>None\<close>, \<^verbatim>\<open>bool\<close>, unbounded \<^verbatim>\<open>int\<close>, \<^verbatim>\<open>float\<close>, \<^verbatim>\<open>str\<close>, \<^verbatim>\<open>list\<close> and \<^verbatim>\<open>dict\<close>. The
  connector never computes with a float, it only moves it, so a finite float is carried
  as the decimal mantissa and exponent of its shortest round-trip literal
  (\<^verbatim>\<open>0.1\<close> is \<open>JFloat 1 (-1)\<close>). A \<^verbatim>\<open>dict\<close> keeps its insertion order, which
  \<^verbatim>\<open>json.dump\<close> writes out, so it is an association list.
\<close>

datatype json =
    JNull
  | JBool bool
  | JInt int
  | JFloat int int
  | JStr string
  | JArr "json list"
  | JObj "(string \<times> json) list"

type_synonym dict = "(string \<times> json) list"

text \<open>The exceptions that the modelled code paths can raise.\<close>

datatype error =
    OSError
  | JSONDecodeError
  | TypeError
  | AttributeError
  | ImportError
  | RemoteError nat

text \<open>
  \<^verbatim>\<open>d.pop(key, default)\<close> on a dict: the value stored under the key and the dict without
  the key, or the default and the dict as it was.
\<close>

definition dict_pop :: "string \<Rightarrow> json \<Rightarrow> dict \<Rightarrow> json \<times> dict" where
  "dict_pop key dflt d =
     (case map_of d key of
        None \<Rightarrow> (dflt, d)
      | Some v \<Rightarrow> (v, AList.delete key d))"

text \<open>
  What \<^verbatim>\<open>for x in v\<close> and \<^verbatim>\<open>list.extend(v)\<close> iterate over for a value that
  \<^verbatim>\<open>json.load\<close> returned: the items of a list, the keys of a dict, the characters of a
  string; the other values are not iterable.
\<close>

fun py_iter :: "json \<Rightarrow> error + json list" where
  "py_iter (JArr xs) = Inr xs"
| "py_iter (JObj d) = Inr (map (\<lambda>kv. JStr (fst kv)) d)"
| "py_iter (JStr s) = Inr (map (\<lambda>c. JStr [c]) s)"
| "py_iter JNull = Inl TypeError"
| "py_iter (JBool b) = Inl TypeError"
| "py_iter (JInt i) = Inl TypeError"
| "py_iter (JFloat m e) = Inl TypeError"

section \<open>The object store\<close>

text \<open>
  \<^verbatim>\<open>conform_dict\<close> mutates the dict it is given and returns a new dict that refers to
  it, so the elements of the loaded list live in a store: an element is an address,
  \<open>cells h a\<close> is the object at address \<open>a\<close>, and \<open>next_addr h\<close> is the first
  address not yet handed out.
\<close>

type_synonym addr = nat

record heap =
  cells :: "addr \<Rightarrow> json"
  next_addr :: addr

definition empty_heap :: heap where
  "empty_heap = \<lparr>cells = (\<lambda>a. JNull), next_addr = 0\<rparr>"

definition alloc :: "json \<Rightarrow> heap \<Rightarrow> addr \<times> heap" where
  "alloc v h =
     (next_addr h, \<lparr>cells = (cells h)(next_addr h := v), next_addr = Suc (next_addr h)\<rparr>)"

fun alloc_all :: "json list \<Rightarrow> heap \<Rightarrow> addr list \<times> heap" where
  "alloc_all [] h = ([], h)"
| "alloc_all (v # vs) h =
     (case alloc v h of (a, h1) \<Rightarrow>
        (case alloc_all vs h1 of (as, h2) \<Rightarrow> (a # as, h2)))"

text \<open>
  A value held by a dict that the connector builds itself: a tree moved out of an
  element, or a reference to an element in the store.
\<close>

datatype pyval = Imm json | Ref addr

text \<open>
  \<^verbatim>\<open>element_dict.pop(key, default)\<close> on the object at an address. A dict is updated in
  place; \<^verbatim>\<open>list.pop\<close> takes at most one argument (TypeError); the other values
  have no \<^verbatim>\<open>pop\<close> (AttributeError).
\<close>

definition obj_pop :: "string \<Rightarrow> json \<Rightarrow> addr \<Rightarrow> heap \<Rightarrow> error + (json \<times> heap)" where
  "obj_pop key dflt a h =
     (case cells h a of
        JObj d \<Rightarrow>
          (case dict_pop key dflt d of
             (v, d') \<Rightarrow> Inr (v, h\<lparr>cells := (cells h)(a := JObj d')\<rparr>))
      | JArr xs \<Rightarrow> Inl TypeError
      | _ \<Rightarrow> Inl AttributeError)"

section \<open>The environment\<close>

text \<open>
  The file system maps a path to the text of the file there. The standard library is
  not part of the connector: the JSON parser (\<^verbatim>\<open>json.load\<close>, \<open>None\<close> for a text
  that is not JSON), the serialiser (\<^verbatim>\<open>json.dump\<close>) and \<^verbatim>\<open>pathlib\<close>'s join are
  parameters. \<open>can_write p\<close> says whether \<^verbatim>\<open>open(p, "w")\<close> succeeds, and
  \<open>write_fault = Some k\<close> interrupts a write once \<open>k\<close> characters have reached the
  file.
\<close>

type_synonym filepath = string
type_synonym fs = "filepath \<Rightarrow> string option"

record env =
  loads :: "string \<Rightarrow> json option"
  dumps :: "json \<Rightarrow> string"
  path_join :: "filepath \<Rightarrow> string \<Rightarrow> filepath"
  can_write :: "filepath \<Rightarrow> bool"
  write_fault :: "nat option"

text \<open>\<^verbatim>\<open>with open(p) as f: json.load(f)\<close>\<close>

definition json_load :: "env \<Rightarrow> fs \<Rightarrow> filepath \<Rightarrow> error + json" where
  "json_load E files p =
     (case files p of
        None \<Rightarrow> Inl OSError
      | Some text \<Rightarrow>
          (case loads E text of
             None \<Rightarrow> Inl JSONDecodeError
           | Some j \<Rightarrow> Inr j))"

text \<open>
  \<^verbatim>\<open>with open(p, "w") as f: json.dump(v, f)\<close>: opening truncates the file at \<open>p\<close>
  itself, and the text is written there directly. An interrupted write leaves the
  characters written so far.
\<close>

definition json_dump :: "env \<Rightarrow> fs \<Rightarrow> filepath \<Rightarrow> json \<Rightarrow> error option \<times> fs" where
  "json_dump E files p v =
     (if \<not> can_write E p then (Some OSError, files)
      else
        (case write_fault E of
           None \<Rightarrow> (None, files(p \<mapsto> dumps E v))
         | Some k \<Rightarrow>
             (if k < length (dumps E v) then (Some OSError, files(p \<mapsto> take k (dumps E v)))
              else (None, files(p \<mapsto> dumps E v)))))"

section \<open>AstraDBUploadStager\<close>

text \<open>
  \<^verbatim>\<open>
  def conform_dict(self, element_dict: dict) -> dict:
      return {
          "$vector": element_dict.pop("embeddings", None),
          "content": element_dict.pop("text", None),
          "metadata": element_dict,
      }
  \<close>
  The dict display evaluates its values in order: the two pops, then the reference to the
  argument itself.
\<close>

definition conform_dict :: "addr \<Rightarrow> heap \<Rightarrow> error + ((string \<times> pyval) list \<times> heap)" where
  "conform_dict element_dict h =
     (case obj_pop ''embeddings'' JNull element_dict h of
        Inl e \<Rightarrow> Inl e
      | Inr (v, h1) \<Rightarrow>
          (case obj_pop ''text'' JNull element_dict h1 of
             Inl e \<Rightarrow> Inl e
           | Inr (c, h2) \<Rightarrow>
               Inr ([(''$vector'', Imm v), (''content'', Imm c), (''metadata'', Ref element_dict)],
                    h2)))"

text \<open>
  \<^verbatim>\<open>for element in elements_contents\<close>: \<^verbatim>\<open>json.load\<close> built every element as an
  object of its own, so each gets a fresh address.
\<close>

definition iter_elements :: "json \<Rightarrow> heap \<Rightarrow> error + (addr list \<times> heap)" where
  "iter_elements elements_contents h =
     (case py_iter elements_contents of
        Inl e \<Rightarrow> Inl e
      | Inr vs \<Rightarrow> Inr (alloc_all vs h))"

text \<open>
  \<^verbatim>\<open>
  conformed_elements = []
  for element in elements_contents:
      conformed_elements.append(self.conform_dict(element_dict=element))
  \<close>
\<close>

fun conform_loop ::
  "addr list \<Rightarrow> (string \<times> pyval) list list \<Rightarrow> heap \<Rightarrow>
     error + ((string \<times> pyval) list list \<times> heap)" where
  "conform_loop [] conformed_elements h = Inr (conformed_elements, h)"
| "conform_loop (element # elements) conformed_elements h =
     (case conform_dict element h of
        Inl e \<Rightarrow> Inl e
      | Inr (r, h') \<Rightarrow> conform_loop elements (conformed_elements @ [r]) h')"

text \<open>
  What \<^verbatim>\<open>json.dump\<close> sees when it walks \<^verbatim>\<open>conformed_elements\<close>: a reference is
  followed into the store as it is at that moment.
\<close>

definition deref :: "heap \<Rightarrow> pyval \<Rightarrow> json" where
  "deref h v = (case v of Imm j \<Rightarrow> j | Ref a \<Rightarrow> cells h a)"

definition to_json :: "heap \<Rightarrow> (string \<times> pyval) list list \<Rightarrow> json" where
  "to_json h conformed_elements =
     JArr (map (\<lambda>r. JObj (map (\<lambda>kv. (fst kv, deref h (snd kv))) r)) conformed_elements)"

text \<open>
  \<^verbatim>\<open>
  def run(self, elements_filepath, file_data, output_dir, output_filename, **kwargs):
      with open(elements_filepath) as elements_file:
          elements_contents = json.load(elements_file)
      conformed_elements = []
      for element in elements_contents:
          conformed_elements.append(self.conform_dict(element_dict=element))
      output_path = Path(output_dir) / Path(f"{output_filename}.json")
      with open(output_path, "w") as output_file:
          json.dump(conformed_elements, output_file)
      return output_path
  \<close>
  The result is the returned path or the exception, and the file system afterwards.
  \<^verbatim>\<open>file_data\<close> is not used. The objects that \<^verbatim>\<open>json.load\<close> creates are new, so
  they are allocated in a store that starts empty.
\<close>

definition AstraDBUploadStager_run ::
  "env \<Rightarrow> fs \<Rightarrow> filepath \<Rightarrow> filepath \<Rightarrow> string \<Rightarrow> (error + filepath) \<times> fs" where
  "AstraDBUploadStager_run E files elements_filepath output_dir output_filename =
     (case json_load E files elements_filepath of
        Inl e \<Rightarrow> (Inl e, files)
      | Inr elements_contents \<Rightarrow>
          (case iter_elements elements_contents empty_heap of
             Inl e \<Rightarrow> (Inl e, files)
           | Inr (elements, h) \<Rightarrow>
               (case conform_loop elements [] h of
                  Inl e \<Rightarrow> (Inl e, files)
                | Inr (conformed_elements, h') \<Rightarrow>
                    (let output_path = path_join E output_dir (output_filename @ ''.json'')
                     in case json_dump E files output_path (to_json h' conformed_elements) of
                          (Some e, files') \<Rightarrow> (Inl e, files')
                        | (None, files') \<Rightarrow> (Inr output_path, files')))))"

text \<open>
  The staged record of an element, in the words of the specification: the vector field
  copied from \<^verbatim>\<open>embeddings\<close>, the content field copied from \<^verbatim>\<open>text\<close> (null when
  missing), and the remaining fields as the nested metadata mapping. The name of the
  vector field is a parameter: the code writes \<^verbatim>\<open>$vector\<close>, the example of the
  specification writes \<^verbatim>\<open>vector\<close>. Only a mapping is an element record
  (\<open>is_record\<close>); for any other value \<open>staged_record\<close> is a placeholder that no
  statement below relies on.
\<close>

definition field_or_null :: "dict \<Rightarrow> string \<Rightarrow> json" where
  "field_or_null d key = (case map_of d key of None \<Rightarrow> JNull | Some v \<Rightarrow> v)"

definition remaining_fields :: "dict \<Rightarrow> dict" where
  "remaining_fields d = filter (\<lambda>kv. fst kv \<noteq> ''embeddings'' \<and> fst kv \<noteq> ''text'') d"

definition staged_record :: "string \<Rightarrow> json \<Rightarrow> json" where
  "staged_record vector_key element =
     (case element of
        JObj d \<Rightarrow>
          JObj [(vector_key, field_or_null d ''embeddings''),
                (''content'', field_or_null d ''text''),
                (''metadata'', JObj (remaining_fields d))]
      | _ \<Rightarrow> JNull)"

definition is_record :: "json \<Rightarrow> bool" where
  "is_record v = (case v of JObj d \<Rightarrow> True | _ \<Rightarrow> False)"

text \<open>
  The value that \<open>AstraDBUploadStager_run\<close> hands to \<^verbatim>\<open>json.dump\<close> for a parsed
  input: the loop of \<^verbatim>\<open>run\<close> on a store of its own, read back the way the
  serialiser reads it.
\<close>

definition staged_contents :: "json \<Rightarrow> error + json" where
  "staged_contents elements_contents =
     (case iter_elements elements_contents empty_heap of
        Inl e \<Rightarrow> Inl e
      | Inr (elements, h) \<Rightarrow>
          (case conform_loop elements [] h of
             Inl e \<Rightarrow> Inl e
           | Inr (conformed_elements, h') \<Rightarrow> Inr (to_json h' conformed_elements)))"

section \<open>Configuration\<close>

record AstraDBAccessConfig =
  token :: string
  api_endpoint :: string

record AstraDBConnectionConfig =
  connection_type :: string
  access_config :: AstraDBAccessConfig

text \<open>
  \<^verbatim>\<open>
  @dataclass
  class AstraDBUploaderConfig(UploaderConfig):
      collection_name: str
      embedding_dimension: int
      namespace: Optional[str] = None
      requested_indexing_policy: Optional[dict[str, Any]] = None
      batch_size: int = 20
  \<close>
\<close>

record AstraDBUploaderConfig =
  collection_name :: string
  embedding_dimension :: int
  namespace :: "string option"
  requested_indexing_policy :: "dict option"
  batch_size :: int

text \<open>
  The constructor that \<^verbatim>\<open>@dataclass\<close> generates stores its arguments; the class
  declares no \<^verbatim>\<open>__post_init__\<close>, so nothing is checked. An argument with a default
  may be left out (\<open>None\<close> for the batch size, which then is 20).
\<close>

definition AstraDBUploaderConfig_init ::
  "string \<Rightarrow> int \<Rightarrow> string option \<Rightarrow> dict option \<Rightarrow> int option \<Rightarrow>
     error + AstraDBUploaderConfig" where
  "AstraDBUploaderConfig_init cn dim ns policy bs =
     Inr \<lparr>collection_name = cn, embedding_dimension = dim, namespace = ns,
          requested_indexing_policy = policy,
          batch_size = (case bs of None \<Rightarrow> 20 | Some b \<Rightarrow> b)\<rparr>"

record AstraDBUploader =
  connection_config :: AstraDBConnectionConfig
  upload_config :: AstraDBUploaderConfig
  connector_type :: string

section \<open>The remote store\<close>

text \<open>
  The \<^verbatim>\<open>astrapy\<close> client is not part of the connector. What the connector does to
  the outside is the sequence of its events: the log line, the request that creates the
  collection, and the insert-many requests. The store's answers are parameters, and may
  depend on everything sent before.
\<close>

type_synonym handle = nat

record AstraDB =
  db_api_endpoint :: string
  db_token :: string
  db_namespace :: "string option"
  caller_name :: string
  caller_version :: string

datatype event =
    LogInfo nat string
  | CreateCollection AstraDB string int "dict option"
  | InsertMany handle "json list"

record remote =
  astrapy_installed :: bool
  integration_version :: string
  create_collection :: "event list \<Rightarrow> AstraDB \<Rightarrow> string \<Rightarrow> int \<Rightarrow> dict option \<Rightarrow> error + handle"
  insert_many :: "event list \<Rightarrow> handle \<Rightarrow> json list \<Rightarrow> error option"

section \<open>AstraDBUploader\<close>

text \<open>
  \<^verbatim>\<open>options = {"indexing": requested_indexing_policy} if requested_indexing_policy else None\<close>
  The condition is the truth value of the field: \<^verbatim>\<open>None\<close> and the empty dict are
  both false.
\<close>

definition indexing_options :: "dict option \<Rightarrow> dict option" where
  "indexing_options requested =
     (case requested of
        None \<Rightarrow> None
      | Some policy \<Rightarrow> if policy = [] then None else Some [(''indexing'', JObj policy)])"

text \<open>
  The condition of that line on its own. The comment above it in the source reads "If the
  user has requested an indexing policy, pass it to the Astra DB": a policy is requested
  when the field is true, which \<^verbatim>\<open>None\<close> and the empty dict are not.
\<close>

definition policy_requested :: "dict option \<Rightarrow> bool" where
  "policy_requested requested =
     (case requested of None \<Rightarrow> False | Some policy \<Rightarrow> policy \<noteq> [])"

text \<open>
  \<^verbatim>\<open>get_collection\<close>: \<^verbatim>\<open>requires_dependencies\<close> raises ImportError when
  \<^verbatim>\<open>astrapy\<close> is missing; otherwise the client is built and
  \<^verbatim>\<open>create_collection(collection_name=..., dimension=..., options=...)\<close> is sent.
\<close>

definition get_collection ::
  "remote \<Rightarrow> AstraDBUploader \<Rightarrow> event list \<Rightarrow> (error + handle) \<times> event list" where
  "get_collection R self tr =
     (if \<not> astrapy_installed R then (Inl ImportError, tr)
      else
        (let cn = collection_name (upload_config self);
             dim = embedding_dimension (upload_config self);
             requested = requested_indexing_policy (upload_config self);
             options = indexing_options requested;
             astra_db = \<lparr>db_api_endpoint = api_endpoint (access_config (connection_config self)),
                         db_token = token (access_config (connection_config self)),
                         db_namespace = namespace (upload_config self),
                         caller_name = ''unstructured'',
                         caller_version = integration_version R\<rparr>
         in (create_collection R tr astra_db cn dim options,
             tr @ [CreateCollection astra_db cn dim options])))"

text \<open>
  Modelled from the spec: \<^verbatim>\<open>batch_generator\<close> of
  \<^verbatim>\<open>unstructured.ingest.utils.data_prep\<close>, which is not among the sources. The
  specification says of it: "Partitions the full sequence into consecutive,
  non-overlapping chunks of size \<^verbatim>\<open>batch_size\<close> (the final chunk may be smaller);
  chunk order matches the concatenated sequence order", "a simple chunking function over
  an ordered sequence, pure", for a positive batch size. For a batch size that is not
  positive the specification says nothing; the model yields no chunk there.
\<close>

function batch_generator :: "'a list \<Rightarrow> int \<Rightarrow> 'a list list" where
  "batch_generator xs n =
     (if xs = [] \<or> n \<le> 0 then []
      else take (nat n) xs # batch_generator (drop (nat n) xs) n)"
  by pat_completeness auto
termination
  by (relation "measure (\<lambda>(xs, n). length xs)") auto

text \<open>
  \<^verbatim>\<open>
  elements_dict = []
  for content in contents:
      with open(content.path) as elements_file:
          elements = json.load(elements_file)
          elements_dict.extend(elements)
  \<close>
  An \<^verbatim>\<open>UploadContent\<close> is used for its path only.
\<close>

fun read_contents :: "env \<Rightarrow> fs \<Rightarrow> filepath list \<Rightarrow> json list \<Rightarrow> error + json list" where
  "read_contents E files [] elements_dict = Inr elements_dict"
| "read_contents E files (p # contents) elements_dict =
     (case json_load E files p of
        Inl e \<Rightarrow> Inl e
      | Inr elements \<Rightarrow>
          (case py_iter elements of
             Inl e \<Rightarrow> Inl e
           | Inr vs \<Rightarrow> read_contents E files contents (elements_dict @ vs)))"

text \<open>
  \<^verbatim>\<open>
  for chunk in batch_generator(elements_dict, astra_batch_size):
      collection.insert_many(chunk)
  \<close>
  A failing insert raises out of the loop; its request was sent all the same.
\<close>

fun insert_chunks ::
  "remote \<Rightarrow> handle \<Rightarrow> json list list \<Rightarrow> event list \<Rightarrow> error option \<times> event list" where
  "insert_chunks R collection [] tr = (None, tr)"
| "insert_chunks R collection (chunk # chunks) tr =
     (case insert_many R tr collection chunk of
        Some e \<Rightarrow> (Some e, tr @ [InsertMany collection chunk])
      | None \<Rightarrow> insert_chunks R collection chunks (tr @ [InsertMany collection chunk]))"

text \<open>
  \<^verbatim>\<open>
  def run(self, contents: list[UploadContent], **kwargs: Any) -> None:
      # elements_dict is filled by the loop over contents, above
      logger.info(f"writing {len(elements_dict)} objects to destination "
                  f"collection {self.upload_config.collection_name}")
      astra_batch_size = self.upload_config.batch_size
      collection = self.get_collection()
      for chunk in batch_generator(elements_dict, astra_batch_size):
          collection.insert_many(chunk)
  \<close>
  The result is the exception, if any, and the events in the order they happened.
\<close>

definition AstraDBUploader_run ::
  "env \<Rightarrow> remote \<Rightarrow> fs \<Rightarrow> AstraDBUploader \<Rightarrow> filepath list \<Rightarrow> error option \<times> event list" where
  "AstraDBUploader_run E R files self contents =
     (case read_contents E files contents [] of
        Inl e \<Rightarrow> (Some e, [])
      | Inr elements_dict \<Rightarrow>
          (let tr0 = [LogInfo (length elements_dict) (collection_name (upload_config self))];
               astra_batch_size = batch_size (upload_config self)
           in case get_collection R self tr0 of
                (Inl e, tr1) \<Rightarrow> (Some e, tr1)
              | (Inr collection, tr1) \<Rightarrow>
                  insert_chunks R collection
                    (batch_generator elements_dict astra_batch_size) tr1))"

text \<open>The insert-many requests among the events, in order.\<close>

fun inserts_of :: "event list \<Rightarrow> (handle \<times> json list) list" where
  "inserts_of [] = []"
| "inserts_of (InsertMany c chunk # tr) = (c, chunk) # inserts_of tr"
| "inserts_of (LogInfo n s # tr) = inserts_of tr"
| "inserts_of (CreateCollection db cn dim opts # tr) = inserts_of tr"

section \<open>Auxiliary notions for the proofs\<close>

text \<open>
  The dict that \<open>conform_dict\<close> returns for the element at an address, and the store
  after the elements at a set of addresses have lost their \<^verbatim>\<open>embeddings\<close> and
  \<^verbatim>\<open>text\<close> keys.
\<close>

definition conformed_of :: "heap \<Rightarrow> addr \<Rightarrow> (string \<times> pyval) list" where
  "conformed_of h a =
     (case cells h a of
        JObj d \<Rightarrow>
          [(''$vector'', Imm (field_or_null d ''embeddings'')),
           (''content'', Imm (field_or_null d ''text'')),
           (''metadata'', Ref a)]
      | _ \<Rightarrow> [])"

definition strip_cell :: "json \<Rightarrow> json" where
  "strip_cell v = (case v of JObj d \<Rightarrow> JObj (remaining_fields d) | _ \<Rightarrow> v)"

definition strip_cells :: "addr set \<Rightarrow> heap \<Rightarrow> heap" where
  "strip_cells A h = h\<lparr>cells := (\<lambda>a. if a \<in> A then strip_cell (cells h a) else cells h a)\<rparr>"

section \<open>Worked examples\<close>

text \<open>
  The element of the specification's end-to-end example, the text of its file, and the
  answers of the parser and the serialiser on the values of the example. The store
  \<open>example_heap\<close> holds the element at address 0; \<open>bare_heap\<close> holds an element
  with neither \<^verbatim>\<open>embeddings\<close> nor \<^verbatim>\<open>text\<close>. In \<open>faulty_env\<close> the write is
  interrupted after twelve characters; \<open>broken_files\<close> holds an input that is not JSON.
\<close>

definition example_element :: json where
  "example_element =
     JObj [(''text'', JStr ''hi''),
           (''embeddings'', JArr [JFloat 1 (- 1), JFloat 2 (- 1)]),
           (''source'', JStr ''a'')]"

definition example_input :: json where
  "example_input = JArr [example_element]"

definition example_input_text :: string where
  \<open>example_input_text = ''[{"text":"hi","embeddings":[0.1,0.2],"source":"a"}]''\<close>

definition example_staged :: json where
  "example_staged =
     JArr [JObj [(''$vector'', JArr [JFloat 1 (- 1), JFloat 2 (- 1)]),
                 (''content'', JStr ''hi''),
                 (''metadata'', JObj [(''source'', JStr ''a'')])]]"

definition example_staged_text :: string where
  \<open>example_staged_text =
     ''[{"$vector": [0.1, 0.2], "content": "hi", "metadata": {"source": "a"}}]''\<close>

definition spec_example_output :: json where
  "spec_example_output =
     JArr [JObj [(''vector'', JArr [JFloat 1 (- 1), JFloat 2 (- 1)]),
                 (''content'', JStr ''hi''),
                 (''metadata'', JObj [(''source'', JStr ''a'')])]]"

definition example_env :: env where
  "example_env =
     \<lparr>loads = (\<lambda>s. if s = example_input_text then Some example_input else None),
      dumps = (\<lambda>v. if v = example_staged then example_staged_text else ''null''),
      path_join = (\<lambda>d f. d @ ''/'' @ f),
      can_write = (\<lambda>p. True),
      write_fault = None\<rparr>"

definition example_files :: fs where
  "example_files = Map.empty(''elements.json'' \<mapsto> example_input_text)"

definition example_heap :: heap where
  "example_heap = snd (alloc example_element empty_heap)"

definition example_heap' :: heap where
  "example_heap' = example_heap\<lparr>cells := (cells example_heap)(0 := JObj [(''source'', JStr ''a'')])\<rparr>"

definition example_conformed :: "(string \<times> pyval) list" where
  "example_conformed =
     [(''$vector'', Imm (JArr [JFloat 1 (- 1), JFloat 2 (- 1)])),
      (''content'', Imm (JStr ''hi'')),
      (''metadata'', Ref 0)]"

definition bare_element :: json where
  "bare_element = JObj [(''source'', JStr ''a'')]"

definition bare_heap :: heap where
  "bare_heap = snd (alloc bare_element empty_heap)"

definition faulty_env :: env where
  "faulty_env = example_env\<lparr>write_fault := Some 12\<rparr>"

definition broken_files :: fs where
  "broken_files = Map.empty(''elements.json'' \<mapsto> ''[{'')"

text \<open>
  An input of two different elements, the second without \<^verbatim>\<open>embeddings\<close>, with the
  answers of the parser and the serialiser on it.
\<close>

definition second_element :: json where
  "second_element = JObj [(''page'', JInt 2), (''text'', JStr ''yo'')]"

definition pair_input_text :: string where
  \<open>pair_input_text =
     ''[{"text":"hi","embeddings":[0.1,0.2],"source":"a"},{"page":2,"text":"yo"}]''\<close>

definition pair_staged :: json where
  "pair_staged =
     JArr [JObj [(''$vector'', JArr [JFloat 1 (- 1), JFloat 2 (- 1)]),
                 (''content'', JStr ''hi''),
                 (''metadata'', JObj [(''source'', JStr ''a'')])],
           JObj [(''$vector'', JNull),
                 (''content'', JStr ''yo''),
                 (''metadata'', JObj [(''page'', JInt 2)])]]"

definition pair_staged_text :: string where
  \<open>pair_staged_text =
     ''[{"$vector": [0.1, 0.2], "content": "hi", "metadata": {"source": "a"}}, {"$vector": null, "content": "yo", "metadata": {"page": 2}}]''\<close>

definition pair_env :: env where
  "pair_env =
     \<lparr>loads = (\<lambda>s. if s = pair_input_text then Some (JArr [example_element, second_element])
                   else None),
      dumps = (\<lambda>v. if v = pair_staged then pair_staged_text else ''null''),
      path_join = (\<lambda>d f. d @ ''/'' @ f),
      can_write = (\<lambda>p. True),
      write_fault = None\<rparr>"

definition pair_files :: fs where
  "pair_files = Map.empty(''elements.json'' \<mapsto> pair_input_text)"

text \<open>
  An uploader for a collection \<^verbatim>\<open>docs\<close> of dimension 2 with the default batch size, a
  store that accepts every request, one that refuses to create the collection, and a
  staged file of 45 records.
\<close>

definition example_uploader :: AstraDBUploader where
  "example_uploader =
     \<lparr>connection_config =
        \<lparr>connection_type = ''astradb'',
         access_config = \<lparr>token = ''AstraCS:secret'', api_endpoint = ''https://db.example''\<rparr>\<rparr>,
      upload_config =
        \<lparr>collection_name = ''docs'', embedding_dimension = 2, namespace = None,
         requested_indexing_policy = None, batch_size = 20\<rparr>,
      connector_type = ''astradb''\<rparr>"

definition example_db :: AstraDB where
  "example_db =
     \<lparr>db_api_endpoint = ''https://db.example'', db_token = ''AstraCS:secret'',
      db_namespace = None, caller_name = ''unstructured'', caller_version = ''0.14.2''\<rparr>"

definition example_remote :: remote where
  "example_remote =
     \<lparr>astrapy_installed = True,
      integration_version = ''0.14.2'',
      create_collection = (\<lambda>tr db cn dim opts. Inr 7),
      insert_many = (\<lambda>tr c chunk. None)\<rparr>"

definition refusing_remote :: remote where
  "refusing_remote = example_remote\<lparr>create_collection := (\<lambda>tr db cn dim opts. Inl (RemoteError 401))\<rparr>"

definition records_text :: string where
  "records_text = ''['' @ concat (replicate 44 ''{}, '') @ ''{}]''"

definition upload_env :: env where
  "upload_env =
     \<lparr>loads = (\<lambda>s. if s = records_text then Some (JArr (replicate 45 (JObj []))) else None),
      dumps = (\<lambda>v. ''null''),
      path_join = (\<lambda>d f. d @ ''/'' @ f),
      can_write = (\<lambda>p. True),
      write_fault = None\<rparr>"

definition upload_files :: fs where
  "upload_files = Map.empty(''out/staged.json'' \<mapsto> records_text)"

definition deny_policy :: dict where
  "deny_policy = [(''deny'', JArr [JStr ''metadata''])]"

definition with_policy :: "dict option \<Rightarrow> AstraDBUploader" where
  "with_policy p =
     example_uploader\<lparr>upload_config := (upload_config example_uploader)\<lparr>requested_indexing_policy := p\<rparr>\<rparr>"

definition unchecked_config :: AstraDBUploaderConfig where
  "unchecked_config =
     \<lparr>collection_name = ''docs'', embedding_dimension = 0, namespace = None,
      requested_indexing_policy = None, batch_size = - 1\<rparr>"

section \<open>Properties of the stager\<close>

lemma delete_absent: "map_of d k = None \<Longrightarrow> AList.delete k d = d"
  by (induction d) (auto split: if_splits)

lemma dict_pop_eq:
  "dict_pop key dflt d = (case map_of d key of None \<Rightarrow> dflt | Some v \<Rightarrow> v, AList.delete key d)"
  by (simp add: dict_pop_def delete_absent split: option.splits)

lemma obj_pop_JObj:
  "cells h a = JObj d \<Longrightarrow>
   obj_pop key dflt a h =
     Inr (case map_of d key of None \<Rightarrow> dflt | Some v \<Rightarrow> v,
          h\<lparr>cells := (cells h)(a := JObj (AList.delete key d))\<rparr>)"
  by (simp add: obj_pop_def dict_pop_eq)

lemma remaining_fields_delete:
  "AList.delete ''text'' (AList.delete ''embeddings'' d) = remaining_fields d"
  by (induction d) (auto simp: remaining_fields_def)

lemma conform_dict_JObj:
  "cells h a = JObj d \<Longrightarrow>
   conform_dict a h =
     Inr ([(''$vector'', Imm (field_or_null d ''embeddings'')),
           (''content'', Imm (field_or_null d ''text'')),
           (''metadata'', Ref a)],
          h\<lparr>cells := (cells h)(a := JObj (remaining_fields d))\<rparr>)"
  by (simp add: conform_dict_def obj_pop_JObj field_or_null_def delete_conv
      remaining_fields_delete)

lemma alloc_all_spec:
  "alloc_all vs h = (as, h') \<Longrightarrow>
     as = [next_addr h ..< next_addr h + length vs] \<and>
     next_addr h' = next_addr h + length vs \<and>
     (\<forall>i < length vs. cells h' (next_addr h + i) = vs ! i) \<and>
     (\<forall>a < next_addr h. cells h' a = cells h a)"
proof (induction vs arbitrary: h as h')
  case Nil
  then show ?case by simp
next
  case (Cons v vs)
  obtain as2 h2 where r: "alloc_all vs (snd (alloc v h)) = (as2, h2)"
    by (cases "alloc_all vs (snd (alloc v h))")
  let ?h1 = "snd (alloc v h)"
  have n1: "next_addr ?h1 = Suc (next_addr h)" by (simp add: alloc_def)
  from Cons.prems r have as: "as = next_addr h # as2" and h': "h' = h2"
    by (auto simp: alloc_def split: prod.splits)
  note IH = Cons.IH[OF r]
  show ?case
  proof (intro conjI allI impI)
    show "as = [next_addr h..<next_addr h + length (v # vs)]"
    proof -
      have "as2 = [Suc (next_addr h)..<Suc (next_addr h) + length vs]"
        using IH n1 by simp
      then show ?thesis using as by (simp add: upt_conv_Cons del: upt_Suc)
    qed
    show "next_addr h' = next_addr h + length (v # vs)"
      using IH h' n1 by simp
  next
    fix i assume "i < length (v # vs)"
    show "cells h' (next_addr h + i) = (v # vs) ! i"
    proof (cases i)
      case 0
      have "cells h2 (next_addr h) = cells ?h1 (next_addr h)"
        using IH n1 by simp
      then show ?thesis using 0 h' by (simp add: alloc_def)
    next
      case (Suc j)
      then have "j < length vs" using \<open>i < length (v # vs)\<close> by simp
      then have "cells h2 (next_addr ?h1 + j) = vs ! j" using IH by blast
      then show ?thesis using Suc h' n1 by simp
    qed
  next
    fix a assume "a < next_addr h"
    then have "cells h2 a = cells ?h1 a" using IH n1 by simp
    then show "cells h' a = cells h a"
      using h' \<open>a < next_addr h\<close> by (simp add: alloc_def)
  qed
qed

lemma conform_dict_record:
  "is_record (cells h a) \<Longrightarrow>
   conform_dict a h = Inr (conformed_of h a, h\<lparr>cells := (cells h)(a := strip_cell (cells h a))\<rparr>)"
  by (cases "cells h a")
     (simp_all add: is_record_def conformed_of_def strip_cell_def conform_dict_JObj)

lemma conform_loop_records:
  "distinct as \<Longrightarrow> \<forall>a\<in>set as. is_record (cells h a) \<Longrightarrow>
   conform_loop as acc h = Inr (acc @ map (conformed_of h) as, strip_cells (set as) h)"
proof (induction as arbitrary: acc h)
  case Nil
  then show ?case by (simp add: strip_cells_def)
next
  case (Cons a as)
  let ?h1 = "h\<lparr>cells := (cells h)(a := strip_cell (cells h a))\<rparr>"
  have step: "conform_dict a h = Inr (conformed_of h a, ?h1)"
    using Cons.prems by (simp add: conform_dict_record)
  have notin: "a \<notin> set as" and dist: "distinct as" using Cons.prems by simp_all
  have same: "\<And>b. b \<in> set as \<Longrightarrow> cells ?h1 b = cells h b"
    using notin by auto
  have recs: "\<forall>b\<in>set as. is_record (cells ?h1 b)"
    using Cons.prems same by simp
  have conf: "map (conformed_of ?h1) as = map (conformed_of h) as"
    using same by (simp add: conformed_of_def)
  have heap: "strip_cells (set as) ?h1 = strip_cells (set (a # as)) h"
    using notin by (auto simp: strip_cells_def fun_eq_iff)
  show ?case
    using Cons.IH[OF dist recs, of "acc @ [conformed_of h a]"] step conf heap by simp
qed

lemma to_json_conformed:
  "\<forall>a\<in>set as. is_record (cells h a) \<Longrightarrow>
   to_json (strip_cells (set as) h) (map (conformed_of h) as) =
     JArr (map (\<lambda>a. staged_record ''$vector'' (cells h a)) as)"
  by (auto simp: to_json_def conformed_of_def strip_cells_def strip_cell_def deref_def
      staged_record_def is_record_def split: json.splits)

lemma alloc_all_snd_cells:
  assumes "alloc_all vs h = (as, h')"
  shows "map (\<lambda>a. f (cells h' a)) as = map f vs"
proof -
  note sp = alloc_all_spec[OF assms]
  show ?thesis
  proof (rule nth_equalityI)
    show "length (map (\<lambda>a. f (cells h' a)) as) = length (map f vs)" using sp by simp
  next
    fix i assume "i < length (map (\<lambda>a. f (cells h' a)) as)"
    then have i: "i < length vs" using sp by simp
    then show "map (\<lambda>a. f (cells h' a)) as ! i = map f vs ! i" using sp by simp
  qed
qed

lemma staged_contents_records:
  assumes "\<forall>x\<in>set xs. is_record x"
  shows "staged_contents (JArr xs) = Inr (JArr (map (staged_record ''$vector'') xs))"
proof -
  obtain as h where al: "alloc_all xs empty_heap = (as, h)"
    by (cases "alloc_all xs empty_heap")
  note sp = alloc_all_spec[OF al]
  have dist: "distinct as" using sp by simp
  have cells: "map (\<lambda>a. cells h a) as = xs"
    using alloc_all_snd_cells[OF al, of "\<lambda>v. v"] by simp
  have recs: "\<forall>a\<in>set as. is_record (cells h a)"
  proof
    fix a assume "a \<in> set as"
    then have "cells h a \<in> set (map (\<lambda>a. cells h a) as)" by simp
    then show "is_record (cells h a)" using assms cells by simp
  qed
  have "conform_loop as [] h = Inr (map (conformed_of h) as, strip_cells (set as) h)"
    using conform_loop_records[OF dist recs, of "[]"] by simp
  then show ?thesis
    using al to_json_conformed[OF recs] alloc_all_snd_cells[OF al, of "staged_record ''$vector''"]
    by (simp add: staged_contents_def iter_elements_def)
qed

lemma run_staged_contents:
  "AstraDBUploadStager_run E files elements_filepath output_dir output_filename =
     (case json_load E files elements_filepath of
        Inl e \<Rightarrow> (Inl e, files)
      | Inr elements_contents \<Rightarrow>
          (case staged_contents elements_contents of
             Inl e \<Rightarrow> (Inl e, files)
           | Inr v \<Rightarrow>
               (case json_dump E files (path_join E output_dir (output_filename @ ''.json'')) v of
                  (Some e, files') \<Rightarrow> (Inl e, files')
                | (None, files') \<Rightarrow>
                    (Inr (path_join E output_dir (output_filename @ ''.json'')), files'))))"
  by (simp add: AstraDBUploadStager_run_def staged_contents_def Let_def
      split: sum.splits prod.splits option.splits)

lemma stager_run_records:
  assumes "files elements_filepath = Some text"
    and "loads E text = Some (JArr xs)"
    and "\<forall>x\<in>set xs. is_record x"
  shows "AstraDBUploadStager_run E files elements_filepath output_dir output_filename =
     (case json_dump E files (path_join E output_dir (output_filename @ ''.json''))
             (JArr (map (staged_record ''$vector'') xs)) of
        (Some e, files') \<Rightarrow> (Inl e, files')
      | (None, files') \<Rightarrow> (Inr (path_join E output_dir (output_filename @ ''.json'')), files'))"
  using assms(1,2) staged_contents_records[OF assms(3)]
  by (simp add: run_staged_contents json_load_def)

lemma example_staged_record:
  "staged_record ''$vector'' example_element =
     JObj [(''$vector'', JArr [JFloat 1 (- 1), JFloat 2 (- 1)]),
           (''content'', JStr ''hi''),
           (''metadata'', JObj [(''source'', JStr ''a'')])]"
  by (simp add: staged_record_def example_element_def field_or_null_def remaining_fields_def)

lemma second_staged_record:
  "staged_record ''$vector'' second_element =
     JObj [(''$vector'', JNull), (''content'', JStr ''yo''),
           (''metadata'', JObj [(''page'', JInt 2)])]"
  by (simp add: staged_record_def second_element_def field_or_null_def remaining_fields_def)

lemma example_heap_cell: "cells example_heap 0 = example_element"
  by (simp add: example_heap_def alloc_def empty_heap_def)

lemma example_conform_dict:
  "conform_dict 0 example_heap = Inr (example_conformed, example_heap')"
  using conform_dict_JObj[of example_heap 0]
  by (simp add: example_heap_cell example_element_def example_conformed_def example_heap'_def
      field_or_null_def remaining_fields_def)

lemma remaining_fields_keys:
  "''embeddings'' \<notin> fst ` set (remaining_fields d)" "''text'' \<notin> fst ` set (remaining_fields d)"
  by (auto simp: remaining_fields_def)

lemma example_staged_contents: "staged_contents example_input = Inr example_staged"
proof -
  have "\<forall>x\<in>set [example_element]. is_record x"
    by (simp add: is_record_def example_element_def)
  then have "staged_contents (JArr [example_element]) =
               Inr (JArr (map (staged_record ''$vector'') [example_element]))"
    by (rule staged_contents_records)
  then show ?thesis
    by (simp add: example_input_def example_staged_def example_staged_record)
qed

section \<open>Properties of the chunking and of the uploader\<close>

lemma batch_generator_Nil [simp]: "batch_generator [] n = []"
  by simp

lemma batch_generator_step:
  "xs \<noteq> [] \<Longrightarrow> 0 < n \<Longrightarrow>
   batch_generator xs n = take (nat n) xs # batch_generator (drop (nat n) xs) n"
  by simp

declare batch_generator.simps [simp del]

lemma concat_batch_generator: "0 < n \<Longrightarrow> concat (batch_generator xs n) = xs"
proof (induction xs n rule: batch_generator.induct)
  case (1 xs n)
  show ?case
  proof (cases "xs = []")
    case True
    then show ?thesis by simp
  next
    case False
    then show ?thesis using 1 by (simp add: batch_generator_step)
  qed
qed

lemma batch_generator_nonempty:
  "0 < n \<Longrightarrow> c \<in> set (batch_generator xs n) \<Longrightarrow> c \<noteq> []"
proof (induction xs n rule: batch_generator.induct)
  case (1 xs n)
  have ne: "xs \<noteq> []" using 1(3) by (cases "xs = []") simp_all
  have "c = take (nat n) xs \<or> c \<in> set (batch_generator (drop (nat n) xs) n)"
    using 1(3) ne 1(2) by (simp add: batch_generator_step)
  then show ?case
  proof
    assume "c = take (nat n) xs"
    then show ?thesis using ne 1(2) by simp
  next
    assume "c \<in> set (batch_generator (drop (nat n) xs) n)"
    then show ?thesis using 1(1) ne 1(2) by simp
  qed
qed

lemma nth_batch_generator:
  "0 < n \<Longrightarrow> i < length (batch_generator xs n) \<Longrightarrow>
   batch_generator xs n ! i = take (nat n) (drop (i * nat n) xs)"
proof (induction xs n arbitrary: i rule: batch_generator.induct)
  case (1 xs n)
  have ne: "xs \<noteq> []" using 1(3) by (cases "xs = []") simp_all
  have eq: "batch_generator xs n = take (nat n) xs # batch_generator (drop (nat n) xs) n"
    using ne 1(2) by (simp add: batch_generator_step)
  show ?case
  proof (cases i)
    case 0
    then show ?thesis using eq by simp
  next
    case (Suc j)
    then have "j < length (batch_generator (drop (nat n) xs) n)" using 1(3) eq by simp
    then have "batch_generator (drop (nat n) xs) n ! j =
                 take (nat n) (drop (j * nat n) (drop (nat n) xs))"
      using 1(1)[of j] ne 1(2) by simp
    then show ?thesis using eq Suc by (simp add: add.commute)
  qed
qed

lemma batch_generator_start:
  assumes "0 < n" "i < length (batch_generator xs n)"
  shows "i * nat n < length xs"
proof -
  have "batch_generator xs n ! i \<in> set (batch_generator xs n)" using assms(2) by simp
  then have "batch_generator xs n ! i \<noteq> []" using batch_generator_nonempty[OF assms(1)] by blast
  then have "take (nat n) (drop (i * nat n) xs) \<noteq> []"
    using nth_batch_generator[OF assms] by simp
  then show ?thesis by (cases "i * nat n < length xs") simp_all
qed

lemma batch_generator_full:
  assumes "0 < n" "Suc i < length (batch_generator xs n)"
  shows "length (batch_generator xs n ! i) = nat n"
proof -
  have "Suc i * nat n < length xs" using batch_generator_start[OF assms] .
  then have le: "nat n \<le> length xs - i * nat n" by simp
  have "i < length (batch_generator xs n)" using assms(2) by simp
  then have "batch_generator xs n ! i = take (nat n) (drop (i * nat n) xs)"
    using nth_batch_generator[OF assms(1)] by blast
  then show ?thesis using le by simp
qed

lemma batch_generator_bounded:
  assumes "0 < n" "c \<in> set (batch_generator xs n)"
  shows "length c \<le> nat n"
proof -
  obtain i where i: "i < length (batch_generator xs n)" and c: "c = batch_generator xs n ! i"
    using assms(2) by (auto simp: in_set_conv_nth)
  have "c = take (nat n) (drop (i * nat n) xs)"
    using nth_batch_generator[OF assms(1) i] c by simp
  then show ?thesis by simp
qed

lemma batch_generator_45_20:
  assumes "length xs = 45"
  shows "map length (batch_generator xs 20) = [20, 20, 5]"
proof -
  have a: "xs \<noteq> []" using assms by auto
  have b: "drop 20 xs \<noteq> []" using assms by auto
  have c: "drop 40 xs \<noteq> []" using assms by auto
  have d: "drop 60 xs = []" using assms by auto
  have "batch_generator xs 20 =
          [take 20 xs, take 20 (drop 20 xs), take 20 (drop 40 xs)]"
    using a b c d by (simp add: batch_generator_step)
  then show ?thesis using assms by simp
qed

lemma inserts_of_append: "inserts_of (tr @ tr') = inserts_of tr @ inserts_of tr'"
  by (induction tr rule: inserts_of.induct) simp_all

lemma insert_chunks_success:
  "fst (insert_chunks R c chunks tr) = None \<Longrightarrow>
   inserts_of (snd (insert_chunks R c chunks tr)) = inserts_of tr @ map (Pair c) chunks"
proof (induction chunks arbitrary: tr)
  case Nil
  then show ?case by simp
next
  case (Cons chunk chunks)
  show ?case
  proof (cases "insert_many R tr c chunk")
    case None
    then show ?thesis using Cons by (simp add: inserts_of_append)
  next
    case (Some e)
    then show ?thesis using Cons.prems by simp
  qed
qed


lemma insert_chunks_handle:
  "x \<in> set (inserts_of (snd (insert_chunks R c chunks tr))) \<Longrightarrow>
   x \<in> set (inserts_of tr) \<or> fst x = c"
proof (induction chunks arbitrary: tr)
  case Nil
  then show ?case by simp
next
  case (Cons chunk chunks)
  show ?case
  proof (cases "insert_many R tr c chunk")
    case None
    then have "x \<in> set (inserts_of (snd (insert_chunks R c chunks (tr @ [InsertMany c chunk]))))"
      using Cons.prems by simp
    then have "x \<in> set (inserts_of (tr @ [InsertMany c chunk])) \<or> fst x = c"
      by (rule Cons.IH)
    then show ?thesis by (auto simp: inserts_of_append)
  next
    case (Some e)
    then show ?thesis using Cons.prems by (auto simp: inserts_of_append)
  qed
qed

lemma insert_chunks_prefix:
  "\<exists>k. inserts_of (snd (insert_chunks R c chunks tr)) =
          inserts_of tr @ map (Pair c) (take k chunks)"
proof (induction chunks arbitrary: tr)
  case Nil
  then show ?case by simp
next
  case (Cons chunk chunks)
  let ?tr = "tr @ [InsertMany c chunk]"
  show ?case
  proof (cases "insert_many R tr c chunk")
    case None
    then have unf: "insert_chunks R c (chunk # chunks) tr = insert_chunks R c chunks ?tr"
      by simp
    from Cons.IH[of ?tr] obtain k where
      "inserts_of (snd (insert_chunks R c chunks ?tr)) =
         inserts_of ?tr @ map (Pair c) (take k chunks)" ..
    then have "inserts_of (snd (insert_chunks R c (chunk # chunks) tr)) =
               inserts_of tr @ map (Pair c) (take (Suc k) (chunk # chunks))"
      by (simp only: unf inserts_of_append inserts_of.simps take_Suc_Cons list.map append.simps
          append_assoc)
    then show ?thesis ..
  next
    case (Some e)
    then have "inserts_of (snd (insert_chunks R c (chunk # chunks) tr)) =
               inserts_of tr @ map (Pair c) (take (Suc 0) (chunk # chunks))"
      by (simp add: inserts_of_append)
    then show ?thesis ..
  qed
qed

lemma inserts_of_get_collection:
  "inserts_of (snd (get_collection R self tr)) = inserts_of tr"
  by (simp add: get_collection_def Let_def inserts_of_append)

lemma uploader_run_provisioned:
  assumes "read_contents E files contents [] = Inr elems"
    and "get_collection R self [LogInfo (length elems) (collection_name (upload_config self))] =
           (Inr c, tr1)"
  shows "AstraDBUploader_run E R files self contents =
           insert_chunks R c (batch_generator elems (batch_size (upload_config self))) tr1"
  using assms by (simp add: AstraDBUploader_run_def Let_def)

lemma uploader_inserts_prefix:
  assumes "insert_chunks R c chunks tr1 = (res, tr)" and "inserts_of tr1 = []"
  shows "\<exists>k\<le>length chunks. inserts_of tr = map (Pair c) (take k chunks) \<and>
           (res = None \<longrightarrow> k = length chunks)"
proof (cases "res = None")
  case True
  then have "fst (insert_chunks R c chunks tr1) = None" using assms(1) by simp
  then have "inserts_of (snd (insert_chunks R c chunks tr1)) = inserts_of tr1 @ map (Pair c) chunks"
    by (rule insert_chunks_success)
  then have "inserts_of tr = map (Pair c) (take (length chunks) chunks)"
    using assms by simp
  then show ?thesis by blast
next
  case False
  obtain k where k: "inserts_of (snd (insert_chunks R c chunks tr1)) =
          inserts_of tr1 @ map (Pair c) (take k chunks)"
    using insert_chunks_prefix by blast
  have "take (min k (length chunks)) chunks = take k chunks"
    by (simp add: min_def)
  then have "inserts_of tr = map (Pair c) (take (min k (length chunks)) chunks)"
    using k assms by simp
  moreover have "min k (length chunks) \<le> length chunks" by simp
  ultimately show ?thesis using False by blast
qed

lemma insert_chunks_all_ok:
  "(\<And>t h ch. insert_many R t h ch = None) \<Longrightarrow> fst (insert_chunks R c chunks tr) = None"
  by (induction chunks arbitrary: tr) simp_all

lemma upload_read_contents:
  "read_contents upload_env upload_files [''out/staged.json''] [] = Inr (replicate 45 (JObj []))"
  by (simp add: json_load_def upload_files_def upload_env_def)

lemma example_get_collection:
  "get_collection example_remote example_uploader tr =
     (Inr 7, tr @ [CreateCollection example_db ''docs'' 2 None])"
  by (simp add: get_collection_def example_remote_def example_uploader_def example_db_def
      indexing_options_def)

section \<open>The claims\<close>

text \<open>
  C1. For every input JSON array of element records, the stager's run writes an output
  array of exactly the same length and in the same order, whose i-th staged record is
  derived from the i-th element record: nothing is filtered and nothing is merged. The
  run is taken without an I/O failure: the input file exists and parses, and the output
  file can be opened and written.
\<close>

theorem stager_run_order_preserving:
  assumes "files elements_filepath = Some text"
    and "loads E text = Some (JArr xs)"
    and "\<forall>x\<in>set xs. is_record x"
    and "can_write E (path_join E output_dir (output_filename @ ''.json''))"
    and "write_fault E = None"
  shows "\<exists>ys. AstraDBUploadStager_run E files elements_filepath output_dir output_filename =
           (Inr (path_join E output_dir (output_filename @ ''.json'')),
            files(path_join E output_dir (output_filename @ ''.json'') \<mapsto> dumps E (JArr ys))) \<and>
         length ys = length xs \<and>
         (\<forall>i<length xs. ys ! i = staged_record ''$vector'' (xs ! i))"
proof (intro exI conjI)
  show "AstraDBUploadStager_run E files elements_filepath output_dir output_filename =
           (Inr (path_join E output_dir (output_filename @ ''.json'')),
            files(path_join E output_dir (output_filename @ ''.json'') \<mapsto>
              dumps E (JArr (map (staged_record ''$vector'') xs))))"
    using stager_run_records[where files = files and elements_filepath = elements_filepath,
        OF assms(1,2,3)] assms(4,5)
    by (simp add: json_dump_def)
  show "length (map (staged_record ''$vector'') xs) = length xs" by simp
  show "\<forall>i<length xs. map (staged_record ''$vector'') xs ! i = staged_record ''$vector'' (xs ! i)"
    by simp
qed

theorem stager_run_order_preserving_witness:
  "AstraDBUploadStager_run pair_env pair_files ''elements.json'' ''out'' ''staged'' =
     (Inr ''out/staged.json'',
      pair_files(''out/staged.json'' \<mapsto>
        dumps pair_env
          (JArr [JObj [(''$vector'', JArr [JFloat 1 (- 1), JFloat 2 (- 1)]),
                       (''content'', JStr ''hi''),
                       (''metadata'', JObj [(''source'', JStr ''a'')])],
                 JObj [(''$vector'', JNull),
                       (''content'', JStr ''yo''),
                       (''metadata'', JObj [(''page'', JInt 2)])]]))) \<and>
   dumps pair_env pair_staged = pair_staged_text \<and>
   dumps pair_env (JArr [staged_record ''$vector'' example_element]) \<noteq> pair_staged_text \<and>
   dumps pair_env
     (JArr [staged_record ''$vector'' second_element,
            staged_record ''$vector'' example_element]) \<noteq> pair_staged_text"
proof -
  have 1: "pair_files ''elements.json'' = Some pair_input_text"
    by (simp add: pair_files_def)
  have 2: "loads pair_env pair_input_text = Some (JArr [example_element, second_element])"
    by (simp add: pair_env_def)
  have 3: "\<forall>x\<in>set [example_element, second_element]. is_record x"
    by (simp add: is_record_def example_element_def second_element_def)
  have 4: "can_write pair_env (path_join pair_env ''out'' (''staged'' @ ''.json''))"
    by (simp add: pair_env_def)
  have 5: "write_fault pair_env = None"
    by (simp add: pair_env_def)
  have p: "path_join pair_env ''out'' (''staged'' @ ''.json'') = ''out/staged.json''"
    by (simp add: pair_env_def)
  from stager_run_order_preserving[where files = pair_files
      and elements_filepath = "''elements.json''", OF 1 2 3 4 5] obtain ys where
    run: "AstraDBUploadStager_run pair_env pair_files ''elements.json'' ''out'' ''staged'' =
           (Inr (path_join pair_env ''out'' (''staged'' @ ''.json'')),
            pair_files(path_join pair_env ''out'' (''staged'' @ ''.json'') \<mapsto>
              dumps pair_env (JArr ys)))"
    and len: "length ys = length [example_element, second_element]"
    and nth: "\<forall>i<length [example_element, second_element].
                ys ! i = staged_record ''$vector'' ([example_element, second_element] ! i)"
    by blast
  from len obtain y0 y1 where ys: "ys = [y0, y1]"
    by (cases ys; cases "tl ys") auto
  from nth have "ys ! 0 = staged_record ''$vector'' example_element"
    and "ys ! 1 = staged_record ''$vector'' second_element"
    by (simp_all add: nth_Cons')
  then have y: "y0 = staged_record ''$vector'' example_element"
    "y1 = staged_record ''$vector'' second_element"
    using ys by simp_all
  have val: "JArr ys = pair_staged"
    unfolding ys y by (simp add: example_staged_record second_staged_record pair_staged_def)
  have a: "AstraDBUploadStager_run pair_env pair_files ''elements.json'' ''out'' ''staged'' =
     (Inr ''out/staged.json'', pair_files(''out/staged.json'' \<mapsto> dumps pair_env pair_staged))"
    using run unfolding p val .
  have b: "dumps pair_env pair_staged = pair_staged_text"
    by (simp add: pair_env_def)
  have ne: "pair_staged_text \<noteq> ''null''"
    by (simp add: pair_staged_text_def)
  have c: "dumps pair_env (JArr [staged_record ''$vector'' example_element]) \<noteq> pair_staged_text"
    using ne by (simp add: pair_env_def pair_staged_def)
  have d: "dumps pair_env
     (JArr [staged_record ''$vector'' second_element,
            staged_record ''$vector'' example_element]) \<noteq> pair_staged_text"
    using ne by (simp add: pair_env_def pair_staged_def example_staged_record second_staged_record)
  from a[unfolded pair_staged_def] b c d show ?thesis by (intro conjI)
qed

text \<open>
  C2, amended. For every element record, the dict that \<open>conform_dict\<close> returns has
  exactly the three keys \<^verbatim>\<open>$vector\<close>, \<^verbatim>\<open>content\<close> and \<^verbatim>\<open>metadata\<close>, in this order, and
  its metadata mapping (the element itself, after the call) contains neither
  \<^verbatim>\<open>embeddings\<close> nor \<^verbatim>\<open>text\<close>. The claim names the first key \<^verbatim>\<open>vector\<close>; the code
  writes \<^verbatim>\<open>$vector\<close>, and on the example element no key \<^verbatim>\<open>vector\<close> exists.
\<close>

theorem conform_dict_keys:
  assumes "cells h a = JObj d"
  shows "\<exists>r h' m. conform_dict a h = Inr (r, h') \<and>
           map fst r = [''$vector'', ''content'', ''metadata''] \<and>
           map_of r ''metadata'' = Some (Ref a) \<and>
           cells h' a = JObj m \<and>
           ''embeddings'' \<notin> fst ` set m \<and> ''text'' \<notin> fst ` set m"
proof (intro exI conjI)
  show "conform_dict a h =
     Inr ([(''$vector'', Imm (field_or_null d ''embeddings'')),
           (''content'', Imm (field_or_null d ''text'')),
           (''metadata'', Ref a)],
          h\<lparr>cells := (cells h)(a := JObj (remaining_fields d))\<rparr>)"
    by (rule conform_dict_JObj[OF assms])
  show "cells (h\<lparr>cells := (cells h)(a := JObj (remaining_fields d))\<rparr>) a =
          JObj (remaining_fields d)"
    by simp
  show "''embeddings'' \<notin> fst ` set (remaining_fields d)"
    by (rule remaining_fields_keys)
  show "''text'' \<notin> fst ` set (remaining_fields d)"
    by (rule remaining_fields_keys)
qed simp_all

theorem conform_dict_keys_witness:
  "cells example_heap 0 = example_element \<and>
   (\<exists>r h' m. conform_dict 0 example_heap = Inr (r, h') \<and>
           map fst r = [''$vector'', ''content'', ''metadata''] \<and>
           map_of r ''metadata'' = Some (Ref 0) \<and>
           cells h' 0 = JObj m \<and>
           ''embeddings'' \<notin> fst ` set m \<and> ''text'' \<notin> fst ` set m)"
proof -
  have c: "cells example_heap 0 =
      JObj [(''text'', JStr ''hi''), (''embeddings'', JArr [JFloat 1 (- 1), JFloat 2 (- 1)]),
            (''source'', JStr ''a'')]"
    by (simp add: example_heap_cell example_element_def)
  from conform_dict_keys[OF c] example_heap_cell show ?thesis
    by (intro conjI)
qed

theorem conform_dict_keys_counterexample:
  "conform_dict 0 example_heap = Inr (example_conformed, example_heap') \<and>
   map fst example_conformed = [''$vector'', ''content'', ''metadata''] \<and>
   ''vector'' \<notin> set (map fst example_conformed)"
proof (intro conjI)
  show "conform_dict 0 example_heap = Inr (example_conformed, example_heap')"
    by (rule example_conform_dict)
  show "map fst example_conformed = [''$vector'', ''content'', ''metadata'']"
    by (simp add: example_conformed_def)
  show "''vector'' \<notin> set (map fst example_conformed)"
    by (simp add: example_conformed_def)
qed

text \<open>
  C3. For any element record in which the \<^verbatim>\<open>embeddings\<close> key or the \<^verbatim>\<open>text\<close> key is
  absent, \<open>conform_dict\<close> raises no error and sets the corresponding field of the
  staged record (\<^verbatim>\<open>$vector\<close>, respectively \<^verbatim>\<open>content\<close>) to null.
\<close>

theorem conform_dict_missing_keys:
  assumes "cells h a = JObj d"
  shows "\<exists>r h'. conform_dict a h = Inr (r, h') \<and>
           (map_of d ''embeddings'' = None \<longrightarrow> map_of r ''$vector'' = Some (Imm JNull)) \<and>
           (map_of d ''text'' = None \<longrightarrow> map_of r ''content'' = Some (Imm JNull))"
  using conform_dict_JObj[OF assms] by (simp add: field_or_null_def)

theorem conform_dict_missing_keys_witness:
  "cells bare_heap 0 = JObj [(''source'', JStr ''a'')] \<and>
   map_of [(''source'', JStr ''a'')] ''embeddings'' = None \<and>
   map_of [(''source'', JStr ''a'')] ''text'' = None \<and>
   conform_dict 0 bare_heap =
     Inr ([(''$vector'', Imm JNull), (''content'', Imm JNull), (''metadata'', Ref 0)], bare_heap)"
proof -
  have c: "cells bare_heap 0 = JObj [(''source'', JStr ''a'')]"
    by (simp add: bare_heap_def bare_element_def alloc_def empty_heap_def)
  have e: "conform_dict 0 bare_heap =
     Inr ([(''$vector'', Imm JNull), (''content'', Imm JNull), (''metadata'', Ref 0)], bare_heap)"
    using conform_dict_JObj[OF c]
    by (simp add: field_or_null_def remaining_fields_def bare_heap_def bare_element_def
        alloc_def empty_heap_def)
  show ?thesis using conform_dict_missing_keys[OF c] c e by simp
qed

text \<open>
  C4. Once the staged files are read and the collection is provisioned, and the store
  accepts every insert, the uploader's run succeeds and its insert-many requests are the
  consecutive, non-overlapping chunks of size \<^verbatim>\<open>batch_size\<close> of the concatenated
  sequence, in order, through the provisioned handle: the i-th request carries the slice
  that starts at \<open>i * batch_size\<close>, no request is empty, all requests but the last
  carry exactly \<^verbatim>\<open>batch_size\<close> records, and the requests concatenated are the
  sequence. With a batch size of 20 and 45 records the run sends exactly three requests,
  of sizes 20, 20 and 5. The chunking function is modelled from the specification.
\<close>

theorem uploader_run_batches:
  assumes "0 < batch_size (upload_config self)"
    and "read_contents E files contents [] = Inr elems"
    and "get_collection R self [LogInfo (length elems) (collection_name (upload_config self))] =
           (Inr c, tr1)"
    and "\<And>t h ch. insert_many R t h ch = None"
    and "chunks = batch_generator elems (batch_size (upload_config self))"
    and "n = nat (batch_size (upload_config self))"
  shows "\<exists>tr. AstraDBUploader_run E R files self contents = (None, tr) \<and>
           inserts_of tr = map (Pair c) chunks \<and>
           concat (map snd (inserts_of tr)) = elems \<and>
           (\<forall>i<length (inserts_of tr).
              snd (inserts_of tr ! i) = take n (drop (i * n) elems) \<and>
              snd (inserts_of tr ! i) \<noteq> []) \<and>
           (\<forall>i. Suc i < length (inserts_of tr) \<longrightarrow> length (snd (inserts_of tr ! i)) = n) \<and>
           (length elems = 45 \<and> batch_size (upload_config self) = 20 \<longrightarrow>
              map (\<lambda>x. length (snd x)) (inserts_of tr) = [20, 20, 5])"
proof -
  obtain res tr where run: "AstraDBUploader_run E R files self contents = (res, tr)"
    by (cases "AstraDBUploader_run E R files self contents")
  have ic: "insert_chunks R c chunks tr1 = (res, tr)"
    using uploader_run_provisioned[OF assms(2,3)] run assms(5) by simp
  have "fst (insert_chunks R c chunks tr1) = None"
    using assms(4) by (rule insert_chunks_all_ok)
  then have res: "res = None" using ic by simp
  have tr1: "inserts_of tr1 = []"
    using inserts_of_get_collection[of R self
        "[LogInfo (length elems) (collection_name (upload_config self))]"] assms(3) by simp
  have "inserts_of (snd (insert_chunks R c chunks tr1)) = inserts_of tr1 @ map (Pair c) chunks"
    using \<open>fst (insert_chunks R c chunks tr1) = None\<close> by (rule insert_chunks_success)
  then have ins: "inserts_of tr = map (Pair c) chunks"
    using ic tr1 by simp
  have snds: "map snd (inserts_of tr) = chunks"
    unfolding ins by (simp add: comp_def)
  have len: "length (inserts_of tr) = length chunks"
    unfolding ins by simp
  have nth: "\<And>i. i < length chunks \<Longrightarrow> snd (inserts_of tr ! i) = chunks ! i"
    unfolding ins by simp
  have 1: "concat (map snd (inserts_of tr)) = elems"
    unfolding snds using assms(1,5) by (simp add: concat_batch_generator)
  have 2: "\<forall>i<length (inserts_of tr).
              snd (inserts_of tr ! i) = take n (drop (i * n) elems) \<and>
              snd (inserts_of tr ! i) \<noteq> []"
  proof (intro allI impI conjI)
    fix i assume "i < length (inserts_of tr)"
    then have i: "i < length chunks" using len by simp
    show "snd (inserts_of tr ! i) = take n (drop (i * n) elems)"
      using i nth[OF i] assms(1,5,6) by (simp add: nth_batch_generator)
    have "chunks ! i \<in> set chunks" using i by simp
    then have "chunks ! i \<noteq> []" using assms(1,5) batch_generator_nonempty by blast
    then show "snd (inserts_of tr ! i) \<noteq> []" using nth[OF i] by simp
  qed
  have 3: "\<forall>i. Suc i < length (inserts_of tr) \<longrightarrow> length (snd (inserts_of tr ! i)) = n"
  proof (intro allI impI)
    fix i assume "Suc i < length (inserts_of tr)"
    then have s: "Suc i < length chunks" using len by simp
    then have i: "i < length chunks" by simp
    show "length (snd (inserts_of tr ! i)) = n"
      using s nth[OF i] assms(1,5,6) by (simp add: batch_generator_full)
  qed
  have 4: "length elems = 45 \<and> batch_size (upload_config self) = 20 \<longrightarrow>
              map (\<lambda>x. length (snd x)) (inserts_of tr) = [20, 20, 5]"
  proof
    assume "length elems = 45 \<and> batch_size (upload_config self) = 20"
    then have "map length chunks = [20, 20, 5]"
      using assms(5) by (simp add: batch_generator_45_20)
    then show "map (\<lambda>x. length (snd x)) (inserts_of tr) = [20, 20, 5]"
      unfolding ins by (simp add: comp_def)
  qed
  from run[unfolded res] ins 1 2 3 4 show ?thesis by (intro exI[of _ tr] conjI)
qed

theorem uploader_run_batches_witness:
  "read_contents upload_env upload_files [''out/staged.json''] [] = Inr (replicate 45 (JObj [])) \<and>
   fst (AstraDBUploader_run upload_env example_remote upload_files example_uploader
          [''out/staged.json'']) = None \<and>
   map (\<lambda>x. length (snd x))
     (inserts_of (snd (AstraDBUploader_run upload_env example_remote upload_files
        example_uploader [''out/staged.json'']))) = [20, 20, 5] \<and>
   map fst
     (inserts_of (snd (AstraDBUploader_run upload_env example_remote upload_files
        example_uploader [''out/staged.json'']))) = [7, 7, 7]"
proof -
  let ?elems = "replicate 45 (JObj [])"
  let ?chunks = "batch_generator ?elems (batch_size (upload_config example_uploader))"
  have bs: "batch_size (upload_config example_uploader) = 20"
    by (simp add: example_uploader_def)
  have pos: "0 < batch_size (upload_config example_uploader)"
    by (simp add: bs)
  have gc: "get_collection example_remote example_uploader
              [LogInfo (length ?elems) (collection_name (upload_config example_uploader))] =
            (Inr 7, [LogInfo (length ?elems) (collection_name (upload_config example_uploader))] @
                    [CreateCollection example_db ''docs'' 2 None])"
    by (rule example_get_collection)
  have ok: "\<And>t h ch. insert_many example_remote t h ch = None"
    by (simp add: example_remote_def)
  from uploader_run_batches[OF pos upload_read_contents gc ok refl refl] bs
  obtain tr where
    run: "AstraDBUploader_run upload_env example_remote upload_files example_uploader
       [''out/staged.json''] = (None, tr)"
    and ins: "inserts_of tr = map (Pair 7) ?chunks"
    and sizes: "map (\<lambda>x. length (snd x)) (inserts_of tr) = [20, 20, 5]"
    by auto
  have "length (inserts_of tr) = 3" using arg_cong[OF sizes, of length] by simp
  then have "length ?chunks = 3" unfolding ins by simp
  then have b: "map fst (inserts_of tr) = [7, 7, 7]"
    unfolding ins by (simp add: comp_def map_replicate_const numeral_3_eq_3)
  show ?thesis using upload_read_contents run sizes b by simp
qed

text \<open>
  C5. With its dependency installed, \<open>get_collection\<close> sends one request to create
  the collection, and the options of the request hold the indexing policy under the key
  \<^verbatim>\<open>indexing\<close> exactly when an indexing policy was requested; when none was requested
  the options are \<^verbatim>\<open>None\<close>, so no indexing-policy option is sent. Requested is what the
  source means by it: the field \<^verbatim>\<open>requested_indexing_policy\<close> is true, which the empty
  mapping is not.
\<close>

theorem get_collection_indexing_policy:
  assumes "astrapy_installed R"
  shows "\<exists>db options.
           get_collection R self tr =
             (create_collection R tr db (collection_name (upload_config self))
                (embedding_dimension (upload_config self)) options,
              tr @ [CreateCollection db (collection_name (upload_config self))
                      (embedding_dimension (upload_config self)) options]) \<and>
           (policy_requested (requested_indexing_policy (upload_config self)) \<longrightarrow>
              (\<exists>policy. requested_indexing_policy (upload_config self) = Some policy \<and>
                 options = Some [(''indexing'', JObj policy)])) \<and>
           (\<not> policy_requested (requested_indexing_policy (upload_config self)) \<longrightarrow>
              options = None)"
  using assms
  by (simp add: get_collection_def Let_def indexing_options_def policy_requested_def
      split: option.splits)

theorem get_collection_indexing_policy_witness:
  "astrapy_installed example_remote \<and>
   policy_requested (requested_indexing_policy (upload_config (with_policy (Some deny_policy)))) \<and>
   snd (get_collection example_remote (with_policy (Some deny_policy)) []) =
     [CreateCollection example_db ''docs'' 2 (Some [(''indexing'', JObj deny_policy)])] \<and>
   \<not> policy_requested (requested_indexing_policy (upload_config (with_policy None))) \<and>
   snd (get_collection example_remote (with_policy None) []) =
     [CreateCollection example_db ''docs'' 2 None] \<and>
   \<not> policy_requested (requested_indexing_policy (upload_config (with_policy (Some [])))) \<and>
   snd (get_collection example_remote (with_policy (Some [])) []) =
     [CreateCollection example_db ''docs'' 2 None]"
proof -
  have i: "astrapy_installed example_remote" by (simp add: example_remote_def)
  have p: "requested_indexing_policy (upload_config (with_policy (Some deny_policy))) =
             Some deny_policy"
    by (simp add: with_policy_def)
  have q: "requested_indexing_policy (upload_config (with_policy None)) = None"
    by (simp add: with_policy_def)
  have ne: "deny_policy \<noteq> []" by (simp add: deny_policy_def)
  have rp: "policy_requested (requested_indexing_policy (upload_config (with_policy (Some deny_policy))))"
    using p ne by (simp add: policy_requested_def)
  have rq: "\<not> policy_requested (requested_indexing_policy (upload_config (with_policy None)))"
    using q by (simp add: policy_requested_def)
  have cn: "\<And>x. collection_name (upload_config (with_policy x)) = ''docs''"
    and dim: "\<And>x. embedding_dimension (upload_config (with_policy x)) = 2"
    by (simp_all add: with_policy_def example_uploader_def)
  from get_collection_indexing_policy[OF i, of "with_policy (Some deny_policy)" "[]"] rp p
  obtain db where
    "snd (get_collection example_remote (with_policy (Some deny_policy)) []) =
       [CreateCollection db ''docs'' 2 (Some [(''indexing'', JObj deny_policy)])]"
    by (auto simp: cn dim)
  moreover have "\<And>o1 o2. (snd (get_collection example_remote (with_policy (Some deny_policy)) []) =
                  [CreateCollection o1 ''docs'' 2 o2]) \<Longrightarrow> o1 = example_db"
    by (simp add: get_collection_def with_policy_def example_uploader_def example_remote_def
        example_db_def)
  ultimately have a: "snd (get_collection example_remote (with_policy (Some deny_policy)) []) =
     [CreateCollection example_db ''docs'' 2 (Some [(''indexing'', JObj deny_policy)])]"
    by metis
  from get_collection_indexing_policy[OF i, of "with_policy None" "[]"] rq
  obtain db' where
    "snd (get_collection example_remote (with_policy None) []) =
       [CreateCollection db' ''docs'' 2 None]"
    by (auto simp: cn dim)
  moreover have "\<And>o1 o2. (snd (get_collection example_remote (with_policy None) []) =
                  [CreateCollection o1 ''docs'' 2 o2]) \<Longrightarrow> o1 = example_db"
    by (simp add: get_collection_def with_policy_def example_uploader_def example_remote_def
        example_db_def)
  ultimately have b: "snd (get_collection example_remote (with_policy None) []) =
     [CreateCollection example_db ''docs'' 2 None]"
    by metis
  have re: "\<not> policy_requested (requested_indexing_policy (upload_config (with_policy (Some []))))"
    by (simp add: with_policy_def policy_requested_def)
  have c: "snd (get_collection example_remote (with_policy (Some [])) []) =
     [CreateCollection example_db ''docs'' 2 None]"
    by (simp add: get_collection_def with_policy_def example_uploader_def example_remote_def
        example_db_def indexing_options_def)
  from i rp a rq b re c show ?thesis by (intro conjI)
qed

text \<open>
  C6, amended. Constructing an uploader configuration checks nothing: every embedding
  dimensionality and every batch size, positive or not, is accepted and stored as given
  (the batch size is 20 when left out). The claim says that a non-positive value is
  rejected at construction; the class has no validation, and a dimensionality of 0 is
  sent on to the store by \<open>get_collection\<close>.
\<close>

theorem uploader_config_unvalidated:
  "AstraDBUploaderConfig_init cn dim ns policy bs =
     Inr \<lparr>collection_name = cn, embedding_dimension = dim, namespace = ns,
          requested_indexing_policy = policy,
          batch_size = (case bs of None \<Rightarrow> 20 | Some b \<Rightarrow> b)\<rparr>"
  by (simp add: AstraDBUploaderConfig_init_def)

theorem uploader_config_unvalidated_witness:
  "AstraDBUploaderConfig_init ''docs'' 2 None None None =
     Inr \<lparr>collection_name = ''docs'', embedding_dimension = 2, namespace = None,
          requested_indexing_policy = None, batch_size = 20\<rparr>"
  using uploader_config_unvalidated[of "''docs''" 2 None None None] by simp

theorem uploader_config_unvalidated_counterexample:
  "AstraDBUploaderConfig_init ''docs'' 0 None None (Some (- 1)) = Inr unchecked_config \<and>
   embedding_dimension unchecked_config = 0 \<and>
   batch_size unchecked_config = - 1 \<and>
   get_collection example_remote (example_uploader\<lparr>upload_config := unchecked_config\<rparr>) [] =
     (Inr 7, [CreateCollection example_db ''docs'' 0 None])"
  by (simp add: AstraDBUploaderConfig_init_def unchecked_config_def get_collection_def
      example_uploader_def example_remote_def example_db_def indexing_options_def)

text \<open>
  C7, amended. When the stager's run fails while reading or parsing the input, in the
  transform, or because the output file cannot be opened, the file system is left as it
  was. When the write itself is interrupted, the output path is left holding the
  characters written so far, a truncated prefix of the JSON text: the code writes to the
  output path directly, and has no write-then-rename. The claim says that no truncated
  array is ever left at the output path.
\<close>

theorem stager_run_failure_output:
  assumes "AstraDBUploadStager_run E files elements_filepath output_dir output_filename =
             (Inl e, files')"
  shows "(\<forall>e'. json_load E files elements_filepath = Inl e' \<longrightarrow> files' = files) \<and>
         (\<forall>j e'. json_load E files elements_filepath = Inr j \<and> staged_contents j = Inl e' \<longrightarrow>
            files' = files) \<and>
         (\<forall>j v. json_load E files elements_filepath = Inr j \<and> staged_contents j = Inr v \<longrightarrow>
            (\<not> can_write E (path_join E output_dir (output_filename @ ''.json'')) \<longrightarrow>
               files' = files) \<and>
            (can_write E (path_join E output_dir (output_filename @ ''.json'')) \<longrightarrow>
               (\<exists>k. write_fault E = Some k \<and> k < length (dumps E v) \<and>
                  files' = files(path_join E output_dir (output_filename @ ''.json'') \<mapsto>
                    take k (dumps E v)))))"
proof (intro conjI allI impI)
  fix e' assume "json_load E files elements_filepath = Inl e'"
  then show "files' = files" using assms by (simp add: run_staged_contents)
next
  fix j e' assume "json_load E files elements_filepath = Inr j \<and> staged_contents j = Inl e'"
  then show "files' = files" using assms by (simp add: run_staged_contents)
next
  fix j v
  assume a: "json_load E files elements_filepath = Inr j \<and> staged_contents j = Inr v"
    and "\<not> can_write E (path_join E output_dir (output_filename @ ''.json''))"
  then show "files' = files" using assms by (simp add: run_staged_contents json_dump_def)
next
  fix j v
  assume a: "json_load E files elements_filepath = Inr j \<and> staged_contents j = Inr v"
    and w: "can_write E (path_join E output_dir (output_filename @ ''.json''))"
  show "\<exists>k. write_fault E = Some k \<and> k < length (dumps E v) \<and>
          files' = files(path_join E output_dir (output_filename @ ''.json'') \<mapsto>
            take k (dumps E v))"
  proof (cases "write_fault E")
    case None
    then show ?thesis using assms a w by (simp add: run_staged_contents json_dump_def)
  next
    case (Some k)
    then show ?thesis using assms a w
      by (simp add: run_staged_contents json_dump_def split: if_splits)
  qed
qed

theorem stager_run_failure_output_witness:
  "AstraDBUploadStager_run example_env broken_files ''elements.json'' ''out'' ''staged'' =
     (Inl JSONDecodeError, broken_files) \<and>
   json_load example_env broken_files ''elements.json'' = Inl JSONDecodeError \<and>
   broken_files ''out/staged.json'' = None"
proof -
  have l: "json_load example_env broken_files ''elements.json'' = Inl JSONDecodeError"
    by (simp add: json_load_def broken_files_def example_env_def example_input_text_def)
  obtain r f where run:
    "AstraDBUploadStager_run example_env broken_files ''elements.json'' ''out'' ''staged'' = (r, f)"
    by (cases "AstraDBUploadStager_run example_env broken_files ''elements.json'' ''out'' ''staged''")
  have r: "r = Inl JSONDecodeError" using run l by (simp add: run_staged_contents)
  have "f = broken_files"
    using stager_run_failure_output[OF run[unfolded r]] l by blast
  then show ?thesis using run r l by (simp add: broken_files_def)
qed

theorem stager_run_failure_output_counterexample:
  \<open>AstraDBUploadStager_run faulty_env example_files ''elements.json'' ''out'' ''staged'' =
     (Inl OSError, example_files(''out/staged.json'' \<mapsto> ''[{"$vector":'')) \<and>
   example_files ''out/staged.json'' = None \<and>
   dumps faulty_env example_staged =
     ''[{"$vector": [0.1, 0.2], "content": "hi", "metadata": {"source": "a"}}]''\<close>
proof (intro conjI)
  have l: "json_load faulty_env example_files ''elements.json'' = Inr example_input"
    by (simp add: json_load_def example_files_def faulty_env_def example_env_def)
  have d: "dumps faulty_env example_staged = example_staged_text"
    by (simp add: faulty_env_def example_env_def)
  have t: \<open>take 12 example_staged_text = ''[{"$vector":''\<close>
    by (simp add: example_staged_text_def)
  have n: "12 < length example_staged_text"
    by (simp add: example_staged_text_def)
  have dump: "json_dump faulty_env example_files ''out/staged.json'' example_staged =
      (Some OSError, example_files(''out/staged.json'' \<mapsto> take 12 example_staged_text))"
    using n by (simp add: json_dump_def d) (simp add: faulty_env_def example_env_def)
  have p: "path_join faulty_env ''out'' (''staged'' @ ''.json'') = ''out/staged.json''"
    by (simp add: faulty_env_def example_env_def)
  show \<open>AstraDBUploadStager_run faulty_env example_files ''elements.json'' ''out'' ''staged'' =
     (Inl OSError, example_files(''out/staged.json'' \<mapsto> ''[{"$vector":''))\<close>
    unfolding run_staged_contents l p using example_staged_contents dump t by simp
  show "example_files ''out/staged.json'' = None"
    by (simp add: example_files_def)
  show \<open>dumps faulty_env example_staged =
     ''[{"$vector": [0.1, 0.2], "content": "hi", "metadata": {"source": "a"}}]''\<close>
    using d by (simp add: example_staged_text_def)
qed

text \<open>
  C8, amended. Staging the single-element input
  \<^verbatim>\<open>[{"text":"hi","embeddings":[0.1,0.2],"source":"a"}]\<close> produces exactly
  \<^verbatim>\<open>[{"$vector":[0.1,0.2],"content":"hi","metadata":{"source":"a"}}]\<close>, which the run
  writes to the output path. The claim gives the first key as \<^verbatim>\<open>vector\<close>; the code
  writes \<^verbatim>\<open>$vector\<close>.
\<close>

theorem stager_example_end_to_end:
  assumes "files elements_filepath = Some text"
    and "loads E text = Some example_input"
    and "can_write E (path_join E output_dir (output_filename @ ''.json''))"
    and "write_fault E = None"
  shows "staged_contents example_input = Inr example_staged \<and>
         AstraDBUploadStager_run E files elements_filepath output_dir output_filename =
           (Inr (path_join E output_dir (output_filename @ ''.json'')),
            files(path_join E output_dir (output_filename @ ''.json'') \<mapsto>
              dumps E example_staged))"
  using assms example_staged_contents
  by (simp add: run_staged_contents json_load_def json_dump_def)

theorem stager_example_end_to_end_witness:
  "example_files ''elements.json'' = Some example_input_text \<and>
   loads example_env example_input_text = Some example_input \<and>
   staged_contents example_input = Inr example_staged \<and>
   AstraDBUploadStager_run example_env example_files ''elements.json'' ''out'' ''staged'' =
     (Inr ''out/staged.json'', example_files(''out/staged.json'' \<mapsto> example_staged_text))"
proof -
  have 1: "example_files ''elements.json'' = Some example_input_text"
    by (simp add: example_files_def)
  have 2: "loads example_env example_input_text = Some example_input"
    by (simp add: example_env_def)
  have 3: "can_write example_env (path_join example_env ''out'' (''staged'' @ ''.json''))"
    by (simp add: example_env_def)
  have 4: "write_fault example_env = None"
    by (simp add: example_env_def)
  have p: "path_join example_env ''out'' (''staged'' @ ''.json'') = ''out/staged.json''"
    by (simp add: example_env_def)
  have d: "dumps example_env example_staged = example_staged_text"
    by (simp add: example_env_def)
  from stager_example_end_to_end[where files = example_files
      and elements_filepath = "''elements.json''", OF 1 2 3 4]
  have "staged_contents example_input = Inr example_staged"
    and "AstraDBUploadStager_run example_env example_files ''elements.json'' ''out'' ''staged'' =
     (Inr ''out/staged.json'', example_files(''out/staged.json'' \<mapsto> example_staged_text))"
    unfolding p d by blast+
  with 1 2 show ?thesis by (intro conjI)
qed

theorem stager_example_end_to_end_counterexample:
  "staged_contents example_input = Inr example_staged \<and>
   example_staged \<noteq> spec_example_output \<and>
   staged_contents example_input \<noteq> Inr spec_example_output"
proof -
  have ne: "example_staged \<noteq> spec_example_output"
    by (simp add: example_staged_def spec_example_output_def)
  then show ?thesis using example_staged_contents by simp
qed

text \<open>
  C9. If \<open>get_collection\<close> fails, the uploader's run ends with that error and no
  insert-many request has been sent; and whenever a run has sent an insert-many request,
  the collection was provisioned before, and every such request goes through the handle
  that provisioning returned.
\<close>

theorem uploader_no_insert_without_collection:
  assumes "AstraDBUploader_run E R files self contents = (res, tr)"
  shows "(\<forall>elems e tr1.
            read_contents E files contents [] = Inr elems \<and>
            get_collection R self [LogInfo (length elems) (collection_name (upload_config self))] =
              (Inl e, tr1) \<longrightarrow>
            res = Some e \<and> tr = tr1 \<and> inserts_of tr = []) \<and>
         (inserts_of tr \<noteq> [] \<longrightarrow>
            (\<exists>elems c tr1.
               read_contents E files contents [] = Inr elems \<and>
               get_collection R self [LogInfo (length elems) (collection_name (upload_config self))] =
                 (Inr c, tr1) \<and>
               (\<forall>x\<in>set (inserts_of tr). fst x = c)))"
proof (intro conjI allI impI)
  fix elems e tr1
  assume a: "read_contents E files contents [] = Inr elems \<and>
            get_collection R self [LogInfo (length elems) (collection_name (upload_config self))] =
              (Inl e, tr1)"
  then have r: "res = Some e" "tr = tr1"
    using assms by (simp_all add: AstraDBUploader_run_def Let_def)
  have "inserts_of tr1 = []"
    using inserts_of_get_collection[of R self
        "[LogInfo (length elems) (collection_name (upload_config self))]"] a by simp
  with r show "res = Some e" "tr = tr1" "inserts_of tr = []" by simp_all
next
  assume ne: "inserts_of tr \<noteq> []"
  show "\<exists>elems c tr1.
               read_contents E files contents [] = Inr elems \<and>
               get_collection R self [LogInfo (length elems) (collection_name (upload_config self))] =
                 (Inr c, tr1) \<and>
               (\<forall>x\<in>set (inserts_of tr). fst x = c)"
  proof (cases "read_contents E files contents []")
    case (Inl e)
    then have "tr = []" using assms by (simp add: AstraDBUploader_run_def)
    then show ?thesis using ne by simp
  next
    case (Inr elems)
    let ?tr0 = "[LogInfo (length elems) (collection_name (upload_config self))]"
    obtain g tr1 where gc: "get_collection R self ?tr0 = (g, tr1)"
      by (cases "get_collection R self ?tr0")
    have tr1: "inserts_of tr1 = []"
      using inserts_of_get_collection[of R self ?tr0] gc by simp
    show ?thesis
    proof (cases g)
      case (Inl e)
      then have "tr = tr1" using assms Inr gc by (simp add: AstraDBUploader_run_def Let_def)
      then show ?thesis using ne tr1 by simp
    next
      case (Inr c)
      have run: "insert_chunks R c (batch_generator elems (batch_size (upload_config self))) tr1 =
              (res, tr)"
        using uploader_run_provisioned[OF \<open>read_contents E files contents [] = Inr elems\<close>
            gc[unfolded Inr]] assms by simp
      have "\<forall>x\<in>set (inserts_of tr). fst x = c"
      proof
        fix x assume "x \<in> set (inserts_of tr)"
        then have "x \<in> set (inserts_of (snd (insert_chunks R c
                      (batch_generator elems (batch_size (upload_config self))) tr1)))"
          using run by simp
        then have "x \<in> set (inserts_of tr1) \<or> fst x = c"
          by (rule insert_chunks_handle)
        then show "fst x = c" using tr1 by simp
      qed
      then show ?thesis
        using \<open>read_contents E files contents [] = Inr elems\<close> gc Inr by blast
    qed
  qed
qed

theorem uploader_no_insert_without_collection_witness:
  "read_contents upload_env upload_files [''out/staged.json''] [] = Inr (replicate 45 (JObj [])) \<and>
   AstraDBUploader_run upload_env refusing_remote upload_files example_uploader
       [''out/staged.json''] =
     (Some (RemoteError 401), [LogInfo 45 ''docs'', CreateCollection example_db ''docs'' 2 None]) \<and>
   inserts_of (snd (AstraDBUploader_run upload_env refusing_remote upload_files example_uploader
       [''out/staged.json''])) = []"
proof -
  obtain res tr where run:
    "AstraDBUploader_run upload_env refusing_remote upload_files example_uploader
       [''out/staged.json''] = (res, tr)"
    by (cases "AstraDBUploader_run upload_env refusing_remote upload_files example_uploader
       [''out/staged.json'']")
  have gc: "get_collection refusing_remote example_uploader
              [LogInfo (length (replicate 45 (JObj []))) (collection_name (upload_config example_uploader))] =
            (Inl (RemoteError 401), [LogInfo 45 ''docs'', CreateCollection example_db ''docs'' 2 None])"
    by (simp add: get_collection_def refusing_remote_def example_remote_def example_uploader_def
        example_db_def indexing_options_def)
  from uploader_no_insert_without_collection[OF run] upload_read_contents gc
  have "res = Some (RemoteError 401) \<and>
        tr = [LogInfo 45 ''docs'', CreateCollection example_db ''docs'' 2 None] \<and>
        inserts_of tr = []"
    by blast
  then show ?thesis using run upload_read_contents by simp
qed

text \<open>
  C10. \<open>conform_dict\<close> mutates its argument in place: after the call the caller's
  dict is the metadata mapping of the result (the same object), it no longer contains the
  keys \<^verbatim>\<open>embeddings\<close> and \<^verbatim>\<open>text\<close>, and it differs from the dict before the call
  whenever one of the two keys was present. No other object of the store changes.
\<close>

theorem conform_dict_mutates_argument:
  assumes "cells h a = JObj d"
  shows "\<exists>r h'. conform_dict a h = Inr (r, h') \<and>
           map_of r ''metadata'' = Some (Ref a) \<and>
           cells h' a = JObj (remaining_fields d) \<and>
           map_of (remaining_fields d) ''embeddings'' = None \<and>
           map_of (remaining_fields d) ''text'' = None \<and>
           (\<forall>b. b \<noteq> a \<longrightarrow> cells h' b = cells h b) \<and>
           next_addr h' = next_addr h \<and>
           (map_of d ''embeddings'' \<noteq> None \<or> map_of d ''text'' \<noteq> None \<longrightarrow>
              cells h' a \<noteq> cells h a)"
proof -
  have none: "map_of (remaining_fields d) ''embeddings'' = None"
    "map_of (remaining_fields d) ''text'' = None"
    using remaining_fields_keys[of d] by (simp_all add: map_of_eq_None_iff)
  have changed: "remaining_fields d \<noteq> d"
    if "map_of d ''embeddings'' \<noteq> None \<or> map_of d ''text'' \<noteq> None"
    using that none by auto
  show ?thesis
    using conform_dict_JObj[OF assms] none changed assms by simp
qed

theorem conform_dict_mutates_argument_witness:
  "cells example_heap 0 = example_element \<and>
   conform_dict 0 example_heap = Inr (example_conformed, example_heap') \<and>
   map_of example_conformed ''metadata'' = Some (Ref 0) \<and>
   cells example_heap' 0 = JObj [(''source'', JStr ''a'')] \<and>
   cells example_heap' 0 \<noteq> cells example_heap 0"
proof -
  have c: "cells example_heap 0 =
      JObj [(''text'', JStr ''hi''), (''embeddings'', JArr [JFloat 1 (- 1), JFloat 2 (- 1)]),
            (''source'', JStr ''a'')]"
    by (simp add: example_heap_cell example_element_def)
  have m: "map_of [(''text'', JStr ''hi''), (''embeddings'', JArr [JFloat 1 (- 1), JFloat 2 (- 1)]),
            (''source'', JStr ''a'')] ''text'' \<noteq> None"
    by simp
  from conform_dict_mutates_argument[OF c] m obtain r h' where
    "conform_dict 0 example_heap = Inr (r, h')" "cells h' 0 \<noteq> cells example_heap 0"
    by blast
  then have ne: "cells example_heap' 0 \<noteq> cells example_heap 0"
    by (simp add: example_conform_dict)
  have md: "map_of example_conformed ''metadata'' = Some (Ref 0)"
    by (simp add: example_conformed_def)
  have after: "cells example_heap' 0 = JObj [(''source'', JStr ''a'')]"
    by (simp add: example_heap'_def)
  from example_heap_cell example_conform_dict md after ne show ?thesis
    by (intro conjI)
qed

end
